theory Spec2Isabelle
  imports Complex_Main "HOL-Library.Sublist" "HOL-Library.Word"
begin

section \<open>Numbers\<close>

text \<open>
  The catalog and the batches are numpy arrays of float64. A float is modelled as a real
  number or one of the three non-finite values. The operations follow numpy: dividing by
  zero does not raise, it yields an infinity or NaN, and every comparison with NaN is false.
  Of the rounding of float64 one case is modelled, the one that turns a quotient into
  \<open>0/0\<close>: a product or quotient of magnitude at most \<open>2^-1075\<close>, half the smallest positive
  float, is rounded to zero (underflow). Rounding to the nearest float otherwise, overflow
  and the sign of zero are not modelled (zero is \<open>+0.0\<close>).
\<close>

datatype npfloat = Fin real | PInf | NInf | NaN

definition underflow :: "real \<Rightarrow> real" where
  "underflow x = (if \<bar>x\<bar> \<le> 1 / 2 ^ 1075 then 0 else x)"

fun np_neg :: "npfloat \<Rightarrow> npfloat" where
  "np_neg (Fin a) = Fin (- a)"
| "np_neg PInf = NInf"
| "np_neg NInf = PInf"
| "np_neg NaN = NaN"

fun np_add :: "npfloat \<Rightarrow> npfloat \<Rightarrow> npfloat" where
  "np_add (Fin a) (Fin b) = Fin (a + b)"
| "np_add (Fin a) PInf = PInf"
| "np_add (Fin a) NInf = NInf"
| "np_add PInf (Fin b) = PInf"
| "np_add PInf PInf = PInf"
| "np_add NInf (Fin b) = NInf"
| "np_add NInf NInf = NInf"
| "np_add PInf NInf = NaN"
| "np_add NInf PInf = NaN"
| "np_add NaN y = NaN"
| "np_add x NaN = NaN"

definition np_sub :: "npfloat \<Rightarrow> npfloat \<Rightarrow> npfloat" where
  "np_sub x y = np_add x (np_neg y)"

text \<open>The product of an infinity and a finite value: NaN at zero, else the sign rule.\<close>

definition inf_times :: "bool \<Rightarrow> real \<Rightarrow> npfloat" where
  "inf_times positive b =
     (if b = 0 then NaN else if (0 < b) = positive then PInf else NInf)"

fun np_mul :: "npfloat \<Rightarrow> npfloat \<Rightarrow> npfloat" where
  "np_mul (Fin a) (Fin b) = Fin (underflow (a * b))"
| "np_mul (Fin a) PInf = inf_times True a"
| "np_mul (Fin a) NInf = inf_times False a"
| "np_mul PInf (Fin b) = inf_times True b"
| "np_mul NInf (Fin b) = inf_times False b"
| "np_mul PInf PInf = PInf"
| "np_mul NInf NInf = PInf"
| "np_mul PInf NInf = NInf"
| "np_mul NInf PInf = NInf"
| "np_mul NaN y = NaN"
| "np_mul x NaN = NaN"

fun np_div :: "npfloat \<Rightarrow> npfloat \<Rightarrow> npfloat" where
  "np_div (Fin a) (Fin b) =
     (if b = 0 then (if a = 0 then NaN else if 0 < a then PInf else NInf)
      else Fin (underflow (a / b)))"
| "np_div (Fin a) PInf = Fin 0"
| "np_div (Fin a) NInf = Fin 0"
| "np_div PInf (Fin b) = (if 0 \<le> b then PInf else NInf)"
| "np_div NInf (Fin b) = (if 0 \<le> b then NInf else PInf)"
| "np_div PInf PInf = NaN"
| "np_div PInf NInf = NaN"
| "np_div NInf PInf = NaN"
| "np_div NInf NInf = NaN"
| "np_div NaN y = NaN"
| "np_div x NaN = NaN"

text \<open>\<open>x**2\<close>\<close>

definition np_sq :: "npfloat \<Rightarrow> npfloat" where
  "np_sq x = np_mul x x"

text \<open>\<open>x < y\<close>\<close>

fun np_lt :: "npfloat \<Rightarrow> npfloat \<Rightarrow> bool" where
  "np_lt (Fin a) (Fin b) = (a < b)"
| "np_lt (Fin a) PInf = True"
| "np_lt NInf (Fin b) = True"
| "np_lt NInf PInf = True"
| "np_lt x y = False"

section \<open>The arrays\<close>

text \<open>
  A crater is one row \<open>(long, lat, radius)\<close>; an array of shape \<open>(n, 3)\<close> is the list of its
  rows. \<open>np.vstack((a, row))\<close> builds the array with the row added at the end;
  \<open>np.concatenate((a, b))\<close> joins two arrays.
\<close>

type_synonym crater = "npfloat \<times> npfloat \<times> npfloat"

definition vstack :: "crater list \<Rightarrow> crater \<Rightarrow> crater list" where
  "vstack a row = a @ [row]"

definition concatenate :: "crater list \<Rightarrow> crater list \<Rightarrow> crater list" where
  "concatenate a b = a @ b"

section \<open>Exceptions\<close>

datatype py_error = FileNotFoundError | OSError | KeyError | IndexError | ValueError
  | UnboundLocalError

section \<open>add_unique_craters\<close>

text \<open>\<open>km_to_deg = 180. / (np.pi * 1737.4)\<close>\<close>

definition km_to_deg :: npfloat where
  "km_to_deg = np_div (Fin 180) (np_mul (Fin pi) (Fin 1737.4))"

text \<open>
  The body of the loop for the candidate \<open>craters[j] = (lo, la, r)\<close>. \<open>Long\<close>, \<open>Lat\<close>, \<open>Rad\<close> are
  the columns taken before the loop; \<open>craters_unique\<close> is the array the loop variable holds
  now. \<open>Rad[mask]\<close> keeps the radii at the positions where the mask is true.
\<close>

definition loop_body ::
  "npfloat list \<Rightarrow> npfloat list \<Rightarrow> npfloat list \<Rightarrow> npfloat \<Rightarrow> npfloat \<Rightarrow>
   crater list \<Rightarrow> crater \<Rightarrow> crater list" where
  "loop_body Long Lat Rad thresh_longlat2 thresh_rad2 craters_unique c =
     (case c of (lo, la, r) \<Rightarrow>
        let diff_longlat =
              map (\<lambda>(Lo, La). np_div (np_add (np_sq (np_sub Lo lo)) (np_sq (np_sub La la)))
                                      (np_sq (np_mul r km_to_deg)))
                  (zip Long Lat);
            Rad' = map snd (filter (\<lambda>(d, R). np_lt d thresh_longlat2) (zip diff_longlat Rad))
        in if length Rad' > 0 then
             (let diff_rad = map (\<lambda>R. np_sq (np_div (np_sub R r) r)) Rad';
                  index = map (\<lambda>d. np_lt d thresh_rad2) diff_rad
              in if length (filter (\<lambda>b. b = True) index) = 0
                 then vstack craters_unique c
                 else craters_unique)
           else vstack craters_unique c)"

fun for_loop ::
  "npfloat list \<Rightarrow> npfloat list \<Rightarrow> npfloat list \<Rightarrow> npfloat \<Rightarrow> npfloat \<Rightarrow>
   crater list \<Rightarrow> crater list \<Rightarrow> crater list" where
  "for_loop Long Lat Rad t1 t2 [] craters_unique = craters_unique"
| "for_loop Long Lat Rad t1 t2 (c # cs) craters_unique =
     for_loop Long Lat Rad t1 t2 cs (loop_body Long Lat Rad t1 t2 craters_unique c)"

definition add_unique_craters ::
  "crater list \<Rightarrow> crater list \<Rightarrow> npfloat \<Rightarrow> npfloat \<Rightarrow> crater list" where
  "add_unique_craters craters craters_unique thresh_longlat2 thresh_rad2 =
     (let Long = map fst craters_unique;
          Lat = map (\<lambda>e. fst (snd e)) craters_unique;
          Rad = map (\<lambda>e. snd (snd e)) craters_unique
      in for_loop Long Lat Rad thresh_longlat2 thresh_rad2 craters craters_unique)"

subsection \<open>add_unique_craters on a store of array objects\<close>

text \<open>
  Python variables hold references to array objects. The store maps an address to the
  array it holds; \<open>next_addr\<close> is the first address not yet given out, and a new array gets
  that address. \<open>np.vstack\<close> builds a new array and writes no existing one; the assignment
  \<open>craters_unique = np.vstack(...)\<close> rebinds the local variable. \<open>Long\<close>, \<open>Lat\<close> and \<open>Rad\<close> are
  views of the array the parameter \<open>craters_unique\<close> referred to at the call (address \<open>view\<close>),
  and \<open>craters[j]\<close> is a view of the batch: both are read from the store when they are
  used. The temporaries of the arithmetic are arrays of their own and are left out.
\<close>

record heap =
  arrays :: "nat \<Rightarrow> crater list"
  next_addr :: nat

definition new_array :: "heap \<Rightarrow> crater list \<Rightarrow> heap \<times> nat" where
  "new_array h v = (h\<lparr>arrays := (arrays h)(next_addr h := v), next_addr := Suc (next_addr h)\<rparr>,
                    next_addr h)"

definition vstack_h :: "heap \<Rightarrow> nat \<Rightarrow> crater \<Rightarrow> heap \<times> nat" where
  "vstack_h h a row = new_array h (vstack (arrays h a) row)"

definition loop_body_h ::
  "nat \<Rightarrow> nat \<Rightarrow> npfloat \<Rightarrow> npfloat \<Rightarrow> nat \<Rightarrow> heap \<times> nat \<Rightarrow> py_error + heap \<times> nat" where
  "loop_body_h view craters thresh_longlat2 thresh_rad2 j s =
     (case s of (h, craters_unique) \<Rightarrow>
        if j < length (arrays h craters) then
          (let Long = map fst (arrays h view);
               Lat = map (\<lambda>e. fst (snd e)) (arrays h view);
               Rad = map (\<lambda>e. snd (snd e)) (arrays h view);
               c = arrays h craters ! j
           in case c of (lo, la, r) \<Rightarrow>
                let diff_longlat =
                      map (\<lambda>(Lo, La). np_div (np_add (np_sq (np_sub Lo lo)) (np_sq (np_sub La la)))
                                              (np_sq (np_mul r km_to_deg)))
                          (zip Long Lat);
                    Rad' = map snd (filter (\<lambda>(d, R). np_lt d thresh_longlat2)
                                           (zip diff_longlat Rad))
                in if length Rad' > 0 then
                     (let diff_rad = map (\<lambda>R. np_sq (np_div (np_sub R r) r)) Rad';
                          index = map (\<lambda>d. np_lt d thresh_rad2) diff_rad
                      in if length (filter (\<lambda>b. b = True) index) = 0
                         then Inr (vstack_h h craters_unique c)
                         else Inr (h, craters_unique))
                   else Inr (vstack_h h craters_unique c))
        else Inl IndexError)"

fun for_loop_h ::
  "nat \<Rightarrow> nat \<Rightarrow> npfloat \<Rightarrow> npfloat \<Rightarrow> nat list \<Rightarrow> heap \<times> nat \<Rightarrow> py_error + heap \<times> nat" where
  "for_loop_h view craters t1 t2 [] s = Inr s"
| "for_loop_h view craters t1 t2 (j # js) s =
     (case loop_body_h view craters t1 t2 j s of
        Inl e \<Rightarrow> Inl e
      | Inr s' \<Rightarrow> for_loop_h view craters t1 t2 js s')"

definition add_unique_craters_h ::
  "heap \<Rightarrow> nat \<Rightarrow> nat \<Rightarrow> npfloat \<Rightarrow> npfloat \<Rightarrow> py_error + heap \<times> nat" where
  "add_unique_craters_h h craters craters_unique thresh_longlat2 thresh_rad2 =
     for_loop_h craters_unique craters thresh_longlat2 thresh_rad2
       [0..<length (arrays h craters)] (h, craters_unique)"

section \<open>extract_unique_craters: the update of the master array\<close>

text \<open>
  The update of the master array in \<open>extract_unique_craters\<close>: \<open>tuple_\<close> is the batch of
  one image, in degrees and kilometres.
\<close>

definition update_catalog ::
  "crater list \<Rightarrow> crater list \<Rightarrow> npfloat \<Rightarrow> npfloat \<Rightarrow> crater list" where
  "update_catalog craters_unique tuple' llt2 rt2 =
     (if length craters_unique > 0
      then add_unique_craters tuple' craters_unique llt2 rt2
      else concatenate craters_unique tuple')"

section \<open>extract_unique_craters: one image\<close>

text \<open>\<open>int(x)\<close> of a finite float: the fractional part is dropped.\<close>

definition py_int :: "real \<Rightarrow> int" where
  "py_int x = (if 0 \<le> x then \<lfloor>x\<rfloor> else \<lceil>x\<rceil>)"

text \<open>
  The \<open>minrad\<close> keyword of the call of \<open>tmt.template_match_t\<close>, from the value of \<open>rawlen\<close>.
  The source has an \<open>if\<close> and an \<open>elif\<close> and no \<open>else\<close>: \<open>None\<close> stands for neither branch
  running, where no call is made.
\<close>

definition minrad_arg :: "int \<Rightarrow> int option" where
  "minrad_arg rawlen =
     (if rawlen < 4000 then
        (let minrad = py_int ((3 / 1000) * real_of_int rawlen - 3)
         in Some (max minrad 3))
      else if rawlen \<ge> 4000 then Some 9
      else None)"

text \<open>
  The conversion of the detections \<open>coords\<close> of one image from pixels to degrees and
  kilometres. \<open>llbd\<close> is the row \<open>P['longlat_bounds'][id]\<close>, \<open>dc\<close> is
  \<open>P['pix_distortion_coefficient'][id][0]\<close> and \<open>dim'\<close> is \<open>dim = float(CP['dim'])\<close>.
  \<open>km2pix\<close> is \<open>utils.transform.km2pix\<close> and \<open>cosine\<close> is \<open>np.cos\<close>, the cosine of float64,
  both taken as parameters. The numpy expressions work on whole columns, here row by row.
\<close>

definition convert_coords ::
  "(npfloat \<Rightarrow> npfloat \<Rightarrow> npfloat \<Rightarrow> npfloat) \<Rightarrow> (npfloat \<Rightarrow> npfloat) \<Rightarrow> npfloat \<Rightarrow>
   npfloat \<times> npfloat \<times> npfloat \<times> npfloat \<Rightarrow> npfloat \<Rightarrow> crater list \<Rightarrow> crater list" where
  "convert_coords km2pix cosine dim' llbd dc coords =
     (case llbd of (llbd0, llbd1, llbd2, llbd3) \<Rightarrow>
        let km_to_pix = km2pix dim' (np_sub llbd3 llbd2) dc;
            long_central = np_mul (Fin 0.5) (np_add llbd0 llbd1);
            lat_central = np_mul (Fin 0.5) (np_add llbd2 llbd3);
            deg_per_pix = np_div (np_div (np_sub llbd3 llbd2) dim') dc
        in map (\<lambda>(long_pix, lat_pix, radii_pix).
                  let radii_km = np_div radii_pix km_to_pix;
                      lat_deg = np_sub lat_central
                                  (np_mul deg_per_pix (np_sub lat_pix (Fin 128)));
                      long_deg = np_add long_central
                                   (np_div (np_mul deg_per_pix (np_sub long_pix (Fin 128)))
                                           (cosine (np_div (np_mul (Fin pi) lat_deg) (Fin 180))))
                  in (long_deg, lat_deg, radii_km))
               coords)"

text \<open>
  The master array over the loop of \<open>extract_unique_craters\<close>, given the batch of each image
  in image order (an image with no detection leaves the array as it is).
\<close>

fun merge_batches ::
  "crater list list \<Rightarrow> crater list \<Rightarrow> npfloat \<Rightarrow> npfloat \<Rightarrow> crater list" where
  "merge_batches [] craters_unique llt2 rt2 = craters_unique"
| "merge_batches (b # bs) craters_unique llt2 rt2 =
     merge_batches bs
       (if length b > 0 then update_catalog craters_unique b llt2 rt2 else craters_unique)
       llt2 rt2"

section \<open>extract_unique_craters: the whole function\<close>

text \<open>
  The collaborators are parameters, each call with its outcome, an exception or a value:
  \<open>h5_preds\<close> is the outcome of \<open>h5py.File(CP['dir_preds'], 'r')[CP['datatype']]\<close>, a sequence
  of predictions whose reads can fail; \<open>model_preds\<close> is the outcome of \<open>get_model_preds(CP)\<close>,
  whose body is calls of h5py and keras only; \<open>h5_data\<close> is the outcome of
  \<open>h5py.File(CP['dir_data'], 'r')\<close>, with the three lookups by image; \<open>np_save\<close> is
  \<open>np.save(CP['dir_result'], .)\<close>. \<open>proc.get_id(i)\<close> is the image number itself. The pixel
  bounds are int32, as the data set stores them, and their difference wraps around.

  The function returns the calls it made and what it printed, in order, and then its value
  or the exception it raised.
\<close>

datatype event = Print string | Call_get_model_preds | Call_template_match_t nat int
  | Call_np_save "crater list"

record dataset =
  pix_bounds :: "nat \<Rightarrow> py_error + 32 word \<times> 32 word \<times> 32 word \<times> 32 word"
  longlat_bounds :: "nat \<Rightarrow> py_error + npfloat \<times> npfloat \<times> npfloat \<times> npfloat"
  pix_distortion_coefficient :: "nat \<Rightarrow> py_error + npfloat"

record 'p world =
  h5_preds :: "py_error + (nat \<Rightarrow> py_error + 'p)"
  model_preds :: "py_error + (nat \<Rightarrow> py_error + 'p)"
  h5_data :: "py_error + dataset"
  tmt_template_match_t :: "'p \<Rightarrow> int \<Rightarrow> py_error + crater list"
  trf_km2pix :: "npfloat \<Rightarrow> npfloat \<Rightarrow> npfloat \<Rightarrow> npfloat"
  np_cos :: "npfloat \<Rightarrow> npfloat"
  np_save :: "crater list \<Rightarrow> py_error + unit"

record config =
  cp_n_imgs :: nat
  cp_dim :: npfloat
  cp_llt2 :: npfloat
  cp_rt2 :: npfloat

text \<open>The \<open>try\<close> with the bare \<open>except\<close> at the head of the function.\<close>

definition load_or_generate ::
  "'p world \<Rightarrow> event list \<times> (py_error + (nat \<Rightarrow> py_error + 'p))" where
  "load_or_generate w =
     (case h5_preds w of
        Inr preds \<Rightarrow> ([Print ''Loaded model predictions successfully''], Inr preds)
      | Inl e \<Rightarrow> ([Print ''Couldnt load model predictions, generating'', Call_get_model_preds],
                  model_preds w))"

text \<open>
  The detections of image \<open>i\<close>: \<open>rawlen\<close>, the choice of \<open>minrad\<close> and the call of the
  provider. \<open>coords\<close> is the value the variable has from the image before, if any.
\<close>

definition match_image ::
  "'p world \<Rightarrow> dataset \<Rightarrow> (nat \<Rightarrow> py_error + 'p) \<Rightarrow> nat \<Rightarrow> crater list option
   \<Rightarrow> event list \<times> (py_error + crater list option)" where
  "match_image w P preds i coords =
     (case pix_bounds P i of
        Inl e \<Rightarrow> ([], Inl e)
      | Inr (p0, p1, p2, p3) \<Rightarrow>
          let rawlen = p2 - p0 in
          (case minrad_arg (sint rawlen) of
             None \<Rightarrow> ([], Inr coords)
           | Some minrad \<Rightarrow>
               (case preds i of
                  Inl e \<Rightarrow> ([], Inl e)
                | Inr pred \<Rightarrow>
                    ([Call_template_match_t i minrad],
                     (case tmt_template_match_t w pred minrad of
                        Inl e \<Rightarrow> Inl e
                      | Inr found \<Rightarrow> Inr (Some found))))))"

text \<open>The body of the loop over the images; the state is the master array, the count of
  matches and \<open>coords\<close>.\<close>

definition image_step ::
  "'p world \<Rightarrow> config \<Rightarrow> dataset \<Rightarrow> (nat \<Rightarrow> py_error + 'p) \<Rightarrow> nat
   \<Rightarrow> crater list \<times> nat \<times> crater list option
   \<Rightarrow> event list \<times> (py_error + crater list \<times> nat \<times> crater list option)" where
  "image_step w CP P preds i s =
     (case s of (craters_unique, N_matches_tot, coords0) \<Rightarrow>
        case match_image w P preds i coords0 of
          (out, Inl e) \<Rightarrow> (out, Inl e)
        | (out, Inr None) \<Rightarrow> (out, Inl UnboundLocalError)
        | (out, Inr (Some coords)) \<Rightarrow>
            if length coords > 0 then
              (case longlat_bounds P i of
                 Inl e \<Rightarrow> (out, Inl e)
               | Inr llbd \<Rightarrow>
                   (case pix_distortion_coefficient P i of
                      Inl e \<Rightarrow> (out, Inl e)
                    | Inr dc \<Rightarrow>
                        let tuple' = convert_coords (trf_km2pix w) (np_cos w) (cp_dim CP)
                                       llbd dc coords
                        in (out, Inr (update_catalog craters_unique tuple' (cp_llt2 CP) (cp_rt2 CP),
                                      N_matches_tot + length coords, Some coords))))
            else (out, Inr (craters_unique, N_matches_tot, Some coords)))"

fun images_loop ::
  "'p world \<Rightarrow> config \<Rightarrow> dataset \<Rightarrow> (nat \<Rightarrow> py_error + 'p) \<Rightarrow> nat list
   \<Rightarrow> crater list \<times> nat \<times> crater list option
   \<Rightarrow> event list \<times> (py_error + crater list \<times> nat \<times> crater list option)" where
  "images_loop w CP P preds [] s = ([], Inr s)"
| "images_loop w CP P preds (i # is) s =
     (case image_step w CP P preds i s of
        (out, Inl e) \<Rightarrow> (out, Inl e)
      | (out, Inr s') \<Rightarrow>
          (case images_loop w CP P preds is s' of (out', res) \<Rightarrow> (out @ out', res)))"

definition extract_unique_craters ::
  "'p world \<Rightarrow> config \<Rightarrow> crater list \<Rightarrow> event list \<times> (py_error + crater list)" where
  "extract_unique_craters w CP craters_unique =
     (case load_or_generate w of
        (out, Inl e) \<Rightarrow> (out, Inl e)
      | (out, Inr preds) \<Rightarrow>
          (case h5_data w of
             Inl e \<Rightarrow> (out, Inl e)
           | Inr P \<Rightarrow>
               (case images_loop w CP P preds [0..<cp_n_imgs CP] (craters_unique, 0, None) of
                  (out', Inl e) \<Rightarrow> (out @ out', Inl e)
                | (out', Inr (result, N_matches_tot, coords)) \<Rightarrow>
                    (case np_save w result of
                       Inl e \<Rightarrow> (out @ out' @ [Call_np_save result], Inl e)
                     | Inr u \<Rightarrow> (out @ out' @ [Call_np_save result], Inr result)))))"

section \<open>Predicates of the statements\<close>

subsection \<open>The matching rule in the words of the specification\<close>

text \<open>
  A candidate \<open>(lo, la, r)\<close> is a duplicate when some catalog entry \<open>(Long, Lat, Rad)\<close> passes
  the position test and the radius test at once.
\<close>

definition matches :: "npfloat \<Rightarrow> npfloat \<Rightarrow> crater \<Rightarrow> crater \<Rightarrow> bool" where
  "matches thresh_longlat2 thresh_rad2 c e =
     (case c of (lo, la, r) \<Rightarrow> case e of (Long, Lat, Rad) \<Rightarrow>
        np_lt (np_div (np_add (np_sq (np_sub Long lo)) (np_sq (np_sub Lat la)))
                      (np_sq (np_mul r km_to_deg))) thresh_longlat2
        \<and> np_lt (np_sq (np_div (np_sub Rad r) r)) thresh_rad2)"

definition is_duplicate :: "npfloat \<Rightarrow> npfloat \<Rightarrow> crater list \<Rightarrow> crater \<Rightarrow> bool" where
  "is_duplicate thresh_longlat2 thresh_rad2 catalog c =
     list_ex (matches thresh_longlat2 thresh_rad2 c) catalog"

text \<open>The second store keeps every array the first one holds.\<close>

definition frame :: "heap \<Rightarrow> heap \<Rightarrow> bool" where
  "frame h h' \<longleftrightarrow> next_addr h \<le> next_addr h' \<and> (\<forall>a < next_addr h. arrays h' a = arrays h a)"

subsection \<open>The outcome of the calls made for one image\<close>

text \<open>The value \<open>minrad\<close> as the claim gives it, from the value of \<open>rawlen\<close>.\<close>

definition minrad_of_span :: "int \<Rightarrow> int" where
  "minrad_of_span x_span =
     (if x_span < 4000 then max (py_int ((3 / 1000) * real_of_int x_span - 3)) 3 else 9)"

text \<open>Every call made for image \<open>i\<close> returned a value.\<close>

definition image_ok ::
  "'p world \<Rightarrow> dataset \<Rightarrow> (nat \<Rightarrow> py_error + 'p) \<Rightarrow> nat \<Rightarrow> bool" where
  "image_ok w P preds i \<longleftrightarrow>
     (\<exists>p0 p1 p2 p3 pred coords.
        pix_bounds P i = Inr (p0, p1, p2, p3) \<and> preds i = Inr pred
        \<and> tmt_template_match_t w pred (minrad_of_span (sint (p2 - p0))) = Inr coords
        \<and> (coords \<noteq> [] \<longrightarrow> (\<exists>llbd. longlat_bounds P i = Inr llbd)
                          \<and> (\<exists>dc. pix_distortion_coefficient P i = Inr dc)))"

text \<open>
  The first call for image \<open>i\<close> that fails raises \<open>e\<close>. The calls are, in order: the pixel
  bounds, the prediction, the provider and, when it found craters, the longitude and
  latitude bounds and the distortion coefficient.
\<close>

definition image_raises ::
  "'p world \<Rightarrow> dataset \<Rightarrow> (nat \<Rightarrow> py_error + 'p) \<Rightarrow> nat \<Rightarrow> py_error \<Rightarrow> bool" where
  "image_raises w P preds i e \<longleftrightarrow>
     pix_bounds P i = Inl e
     \<or> (\<exists>p0 p1 p2 p3. pix_bounds P i = Inr (p0, p1, p2, p3)
          \<and> (preds i = Inl e
             \<or> (\<exists>pred. preds i = Inr pred
                  \<and> (tmt_template_match_t w pred (minrad_of_span (sint (p2 - p0))) = Inl e
                     \<or> (\<exists>coords.
                          tmt_template_match_t w pred (minrad_of_span (sint (p2 - p0))) = Inr coords
                          \<and> coords \<noteq> []
                          \<and> (longlat_bounds P i = Inl e
                             \<or> (\<exists>llbd. longlat_bounds P i = Inr llbd)
                                \<and> pix_distortion_coefficient P i = Inl e))))))"

text \<open>The predictions the function works with: loaded, or generated after a failed load.\<close>

definition obtained :: "'p world \<Rightarrow> (nat \<Rightarrow> py_error + 'p) \<Rightarrow> bool" where
  "obtained w preds \<longleftrightarrow>
     h5_preds w = Inr preds \<or> (\<exists>e. h5_preds w = Inl e) \<and> model_preds w = Inr preds"

subsection \<open>Runs for the examples\<close>

text \<open>
  The predictions file is missing and the model gives one prediction; the image is a crop
  of 6000 pixels between the longitudes 0 and 10 and the latitudes -5 and 5, and the
  provider finds one crater at pixel (128, 128).
\<close>

definition data1 :: dataset where
  "data1 = \<lparr>pix_bounds = (\<lambda>i. Inr (0, 0, 6000, 6000)),
            longlat_bounds = (\<lambda>i. Inr (Fin 0, Fin 10, Fin (- 5), Fin 5)),
            pix_distortion_coefficient = (\<lambda>i. Inr (Fin 1))\<rparr>"

definition world1 :: "unit world" where
  "world1 =
     \<lparr>h5_preds = Inl FileNotFoundError,
      model_preds = Inr (\<lambda>i. if i < 1 then Inr () else Inl IndexError),
      h5_data = Inr data1,
      tmt_template_match_t = (\<lambda>pred minrad. Inr [(Fin 128, Fin 128, Fin 5)]),
      trf_km2pix = (\<lambda>d l dc. Fin 2),
      np_cos = (\<lambda>x. case x of Fin a \<Rightarrow> Fin (cos a) | PInf \<Rightarrow> NaN | NInf \<Rightarrow> NaN | NaN \<Rightarrow> NaN),
      np_save = (\<lambda>a. Inr ())\<rparr>"

definition config1 :: config where
  "config1 = \<lparr>cp_n_imgs = 1, cp_dim = Fin 256, cp_llt2 = Fin 1.8, cp_rt2 = Fin 1\<rparr>"

text \<open>The same run with no entry for the image among the longitude and latitude bounds.\<close>

definition world_no_bounds :: "unit world" where
  "world_no_bounds = world1\<lparr>h5_data := Inr (data1\<lparr>longlat_bounds := (\<lambda>i. Inl KeyError)\<rparr>)\<rparr>"

text \<open>
  The predictions file is there and lacks the data set: the read raises a KeyError and
  leaves the file open, and \<open>get_model_preds\<close>, which opens the same file for writing,
  raises an OSError.
\<close>

definition world_key_error :: "unit world" where
  "world_key_error = world1\<lparr>h5_preds := Inl KeyError, model_preds := Inl OSError\<rparr>"

text \<open>Pixel bounds whose difference, 2147483648, is not an int32.\<close>

definition world_wide :: "unit world" where
  "world_wide =
     world1\<lparr>h5_data := Inr (data1\<lparr>pix_bounds := (\<lambda>i. Inr (- 1, 0, 2147483647, 0))\<rparr>)\<rparr>"

section \<open>Properties of add_unique_craters\<close>

lemma Rad_mask_eq:
  "map snd (filter (\<lambda>(d, R). P d) (zip (map f (zip (map fst cu) (map (\<lambda>e. fst (snd e)) cu)))
                                        (map (\<lambda>e. snd (snd e)) cu)))
   = map (\<lambda>e. snd (snd e)) (filter (\<lambda>e. P (f (fst e, fst (snd e)))) cu)"
  by (induction cu) auto

lemma nested_if:
  "(case c of (lo, la, r) \<Rightarrow>
        let diff_longlat =
              map (\<lambda>(Lo, La). np_div (np_add (np_sq (np_sub Lo lo)) (np_sq (np_sub La la)))
                                      (np_sq (np_mul r km_to_deg)))
                  (zip (map fst cat) (map (\<lambda>e. fst (snd e)) cat));
            Rad' = map snd (filter (\<lambda>(d, R). np_lt d t1) (zip diff_longlat (map (\<lambda>e. snd (snd e)) cat)))
        in if length Rad' > 0 then
             (let diff_rad = map (\<lambda>R. np_sq (np_div (np_sub R r) r)) Rad';
                  index = map (\<lambda>d. np_lt d t2) diff_rad
              in if length (filter (\<lambda>b. b = True) index) = 0
                 then A
                 else B)
           else A)
   = (if is_duplicate t1 t2 cat c then B else A)"
proof -
  obtain lo la r where c: "c = (lo, la, r)" by (cases c) auto
  let ?f = "\<lambda>(Lo, La). np_div (np_add (np_sq (np_sub Lo lo)) (np_sq (np_sub La la)))
                                (np_sq (np_mul r km_to_deg))"
  let ?near = "filter (\<lambda>e. np_lt (?f (fst e, fst (snd e))) t1) cat"
  have dup: "is_duplicate t1 t2 cat (lo, la, r)
             \<longleftrightarrow> (\<exists>e \<in> set ?near. np_lt (np_sq (np_div (np_sub (snd (snd e)) r) r)) t2)"
    by (auto simp: is_duplicate_def matches_def list_ex_iff)
  show ?thesis
    unfolding c Let_def prod.case
    unfolding Rad_mask_eq [of "\<lambda>d. np_lt d t1" ?f cat] dup
    by (auto simp: filter_empty_conv)
qed

lemma loop_body_decision:
  "loop_body (map fst cat) (map (\<lambda>e. fst (snd e)) cat) (map (\<lambda>e. snd (snd e)) cat) t1 t2 cu c
   = (if is_duplicate t1 t2 cat c then cu else cu @ [c])"
  unfolding loop_body_def vstack_def by (rule nested_if)

lemma for_loop_filter:
  "for_loop (map fst cat) (map (\<lambda>e. fst (snd e)) cat) (map (\<lambda>e. snd (snd e)) cat) t1 t2 cs cu
   = cu @ filter (\<lambda>c. \<not> is_duplicate t1 t2 cat c) cs"
  by (induction cs arbitrary: cu) (simp_all add: loop_body_decision)

lemma add_unique_craters_filter:
  "add_unique_craters craters cat t1 t2
   = cat @ filter (\<lambda>c. \<not> is_duplicate t1 t2 cat c) craters"
  by (simp add: add_unique_craters_def for_loop_filter)

subsection \<open>The arithmetic on finite values\<close>

lemma underflow_zero: "underflow 0 = 0"
  by (simp add: underflow_def)

lemma underflow_id: "1 / 2 ^ 1075 < \<bar>x\<bar> \<Longrightarrow> underflow x = x"
  by (simp add: underflow_def)

lemma np_sq_Fin: "np_sq (Fin a) = Fin (underflow (a * a))"
  by (simp add: np_sq_def)

lemma km_to_deg_lower: "1 / 40 < 180 / (pi * 1737.4)"
  using pi_less_4 pi_gt_zero by (simp add: field_simps)

lemma km_to_deg_upper: "180 / (pi * 1737.4) < 1 / 19"
  using pi_ge_two by (simp add: field_simps)

lemma km_to_deg_finite: "km_to_deg = Fin (180 / (pi * 1737.4))"
proof -
  have "1 / 2 ^ 1075 < \<bar>pi * 1737.4\<bar>"
    using pi_ge_two by simp
  then have m: "underflow (pi * 1737.4) = pi * 1737.4"
    by (rule underflow_id)
  have "(1::real) / 2 ^ 1075 < 1 / 40" by simp
  also note km_to_deg_lower
  also have "180 / (pi * 1737.4) \<le> \<bar>180 / (pi * 1737.4)\<bar>" by (rule abs_ge_self)
  finally have "1 / 2 ^ 1075 < \<bar>180 / (pi * 1737.4)\<bar>" .
  then have d: "underflow (180 / (pi * 1737.4)) = 180 / (pi * 1737.4)"
    by (rule underflow_id)
  show ?thesis
    unfolding km_to_deg_def np_mul.simps m using d by simp
qed

text \<open>
  The square of the scaled radius is not zero from \<open>1e-160\<close> on; at \<open>1e-200\<close> it is zero.
\<close>

lemma scaled_radius_squared:
  assumes "1 / 10 ^ 160 \<le> \<bar>r\<bar>"
  shows "np_sq (np_mul (Fin r) km_to_deg) = Fin ((r * (180 / (pi * 1737.4)))\<^sup>2)"
    and "(r * (180 / (pi * 1737.4)))\<^sup>2 \<noteq> 0"
proof -
  let ?K = "180 / (pi * 1737.4)"
  have K: "1 / 40 < ?K" by (rule km_to_deg_lower)
  have "1 / 10 ^ 160 * (1 / 40) \<le> \<bar>r\<bar> * ?K"
    using assms K by (intro mult_mono) simp_all
  then have low: "1 / 10 ^ 160 * (1 / 40) \<le> \<bar>r * ?K\<bar>"
    using K by (simp add: abs_mult)
  have "(1::real) / 2 ^ 1075 < 1 / 10 ^ 160 * (1 / 40)" by simp
  from this low have "1 / 2 ^ 1075 < \<bar>r * ?K\<bar>" by (rule less_le_trans)
  then have u1: "underflow (r * ?K) = r * ?K" by (rule underflow_id)
  have sq: "(1 / 10 ^ 160 * (1 / 40)) * (1 / 10 ^ 160 * (1 / 40)) \<le> \<bar>r * ?K\<bar> * \<bar>r * ?K\<bar>"
    using low by (intro mult_mono) simp_all
  have "(1::real) / 2 ^ 1075 < (1 / 10 ^ 160 * (1 / 40)) * (1 / 10 ^ 160 * (1 / 40))"
    by simp
  from this sq have "1 / 2 ^ 1075 < \<bar>r * ?K\<bar> * \<bar>r * ?K\<bar>" by (rule less_le_trans)
  then have big: "1 / 2 ^ 1075 < \<bar>(r * ?K) * (r * ?K)\<bar>"
    by (simp only: abs_mult)
  then have u2: "underflow ((r * ?K) * (r * ?K)) = (r * ?K) * (r * ?K)" by (rule underflow_id)
  show "np_sq (np_mul (Fin r) km_to_deg) = Fin ((r * ?K)\<^sup>2)"
    unfolding km_to_deg_finite np_mul.simps u1 np_sq_Fin u2 power2_eq_square ..
  from big show "(r * ?K)\<^sup>2 \<noteq> 0"
    by (auto simp: power2_eq_square)
qed

lemma zero_over_scaled_radius:
  assumes "1 / 10 ^ 160 \<le> \<bar>r\<bar>"
  shows "np_div (Fin 0) (np_sq (np_mul (Fin r) km_to_deg)) = Fin 0"
  using scaled_radius_squared [OF assms] by (simp add: underflow_zero)

text \<open>
  On finite values with a candidate radius of magnitude \<open>1e-160\<close> or more, the two tests are
  the inequalities over the reals, with \<open>K = 180 / (pi * 1737.4)\<close>, up to the underflow of
  the squares and quotients.
\<close>

lemma matches_finite:
  assumes "1 / 10 ^ 160 \<le> \<bar>r\<bar>"
  shows "matches (Fin t1) (Fin t2) (Fin lo, Fin la, Fin r) (Fin Long, Fin Lat, Fin Rad)
         \<longleftrightarrow> underflow ((underflow ((Long - lo)\<^sup>2) + underflow ((Lat - la)\<^sup>2))
                         / (r * (180 / (pi * 1737.4)))\<^sup>2) < t1
             \<and> underflow ((underflow ((Rad - r) / r))\<^sup>2) < t2"
proof -
  from assms have "r \<noteq> 0" by auto
  then show ?thesis
    using scaled_radius_squared [OF assms]
    by (simp add: matches_def np_sq_Fin np_sub_def power2_eq_square)
qed

text \<open>
  C1. A candidate is discarded if and only if some entry of the catalog passes the position
  test and the radius test together, both scaled by the candidate's own radius; every other
  candidate is appended, in batch order. So the result is the catalog followed by the
  candidates that no entry matches.
\<close>

theorem add_unique_craters_discards_iff_match:
  "add_unique_craters craters catalog thresh_longlat2 thresh_rad2
   = catalog @ filter (\<lambda>c. \<not> is_duplicate thresh_longlat2 thresh_rad2 catalog c) craters"
  by (rule add_unique_craters_filter)

text \<open>
  C8. The output of a merge starts with the input catalog, unchanged; what follows is a
  subsequence of the batch in batch order; the size grows by at most the size of the batch.
\<close>

theorem add_unique_craters_extends:
  "prefix catalog (add_unique_craters craters catalog t1 t2)
   \<and> take (length catalog) (add_unique_craters craters catalog t1 t2) = catalog
   \<and> subseq (drop (length catalog) (add_unique_craters craters catalog t1 t2)) craters
   \<and> length catalog \<le> length (add_unique_craters craters catalog t1 t2)
   \<and> length (add_unique_craters craters catalog t1 t2) \<le> length catalog + length craters"
  by (simp add: add_unique_craters_filter)

text \<open>
  C7. A batch merged into an empty catalog gives the batch itself, every row in its place,
  both when \<open>add_unique_craters\<close> is called on the empty catalog and through the branch of
  \<open>extract_unique_craters\<close> that fills an empty catalog directly.
\<close>

theorem empty_catalog_bootstrap:
  "add_unique_craters craters [] t1 t2 = craters
   \<and> update_catalog [] craters t1 t2 = craters
   \<and> length (add_unique_craters craters [] t1 t2) = length craters
   \<and> length (update_catalog [] craters t1 t2) = length craters"
  by (simp add: add_unique_craters_filter is_duplicate_def update_catalog_def concatenate_def)

text \<open>
  C4. Every decision is taken against the catalog as it was before the batch: what the later
  candidates of a batch append is what they append when merged alone into that catalog,
  whatever the earlier candidates appended. So two near-duplicate candidates of one batch
  that match no catalog entry are both appended, although the second is discarded when it
  arrives in a later batch.
\<close>

theorem decisions_use_prebatch_catalog:
  "add_unique_craters (b1 @ b2) catalog t1 t2
     = add_unique_craters b1 catalog t1 t2
       @ drop (length catalog) (add_unique_craters b2 catalog t1 t2)
   \<and> add_unique_craters [(Fin 0, Fin 0, Fin 3), (Fin 0, Fin 0, Fin 3.1)]
         [(Fin 0, Fin 0, Fin 1)] (Fin 1) (Fin 0.3)
       = [(Fin 0, Fin 0, Fin 1), (Fin 0, Fin 0, Fin 3), (Fin 0, Fin 0, Fin 3.1)]
   \<and> add_unique_craters [(Fin 0, Fin 0, Fin 3.1)]
         (add_unique_craters [(Fin 0, Fin 0, Fin 3)] [(Fin 0, Fin 0, Fin 1)] (Fin 1) (Fin 0.3))
         (Fin 1) (Fin 0.3)
       = [(Fin 0, Fin 0, Fin 1), (Fin 0, Fin 0, Fin 3)]"
proof -
  have split: "add_unique_craters (b1 @ b2) catalog t1 t2
     = add_unique_craters b1 catalog t1 t2
       @ drop (length catalog) (add_unique_craters b2 catalog t1 t2)"
    by (simp add: add_unique_craters_filter)
  have both: "add_unique_craters [(Fin 0, Fin 0, Fin 3), (Fin 0, Fin 0, Fin 3.1)]
         [(Fin 0, Fin 0, Fin 1)] (Fin 1) (Fin 0.3)
       = [(Fin 0, Fin 0, Fin 1), (Fin 0, Fin 0, Fin 3), (Fin 0, Fin 0, Fin 3.1)]"
    by (simp add: add_unique_craters_filter is_duplicate_def matches_def np_sub_def np_sq_Fin
        zero_over_scaled_radius underflow_def)
  have later: "add_unique_craters [(Fin 0, Fin 0, Fin 3.1)]
         (add_unique_craters [(Fin 0, Fin 0, Fin 3)] [(Fin 0, Fin 0, Fin 1)] (Fin 1) (Fin 0.3))
         (Fin 1) (Fin 0.3)
       = [(Fin 0, Fin 0, Fin 1), (Fin 0, Fin 0, Fin 3)]"
    by (simp add: add_unique_craters_filter is_duplicate_def matches_def np_sub_def np_sq_Fin
        zero_over_scaled_radius underflow_def)
  from split both later show ?thesis by blast
qed

subsection \<open>Thresholds\<close>

lemma np_lt_mono: "np_lt x (Fin t) \<Longrightarrow> t \<le> t' \<Longrightarrow> np_lt x (Fin t')"
  by (cases x) auto

lemma matches_mono:
  "matches (Fin t1) (Fin t2) c e \<Longrightarrow> t1 \<le> t1' \<Longrightarrow> t2 \<le> t2'
   \<Longrightarrow> matches (Fin t1') (Fin t2') c e"
  by (auto simp: matches_def split: prod.splits intro: np_lt_mono)

lemma is_duplicate_mono:
  "is_duplicate (Fin t1) (Fin t2) cat c \<Longrightarrow> t1 \<le> t1' \<Longrightarrow> t2 \<le> t2'
   \<Longrightarrow> is_duplicate (Fin t1') (Fin t2') cat c"
  by (auto simp: is_duplicate_def list_ex_iff intro: matches_mono)

lemma length_filter_mono:
  "(\<And>x. x \<in> set xs \<Longrightarrow> P x \<Longrightarrow> Q x) \<Longrightarrow> length (filter P xs) \<le> length (filter Q xs)"
  by (induction xs) auto

text \<open>
  C3, as amended. For one merge of a batch into a catalog, raising either threshold never
  makes the result larger.
\<close>

theorem single_merge_threshold_monotone:
  assumes "t1 \<le> t1'" and "t2 \<le> t2'"
  shows "length (add_unique_craters craters catalog (Fin t1') (Fin t2'))
         \<le> length (add_unique_craters craters catalog (Fin t1) (Fin t2))"
proof -
  have "length (filter (\<lambda>c. \<not> is_duplicate (Fin t1') (Fin t2') catalog c) craters)
        \<le> length (filter (\<lambda>c. \<not> is_duplicate (Fin t1) (Fin t2) catalog c) craters)"
    using assms by (intro length_filter_mono) (blast intro: is_duplicate_mono)
  then show ?thesis
    by (simp add: add_unique_craters_filter)
qed

theorem single_merge_threshold_monotone_witness:
  "length (add_unique_craters [(Fin 0, Fin 0, Fin 2)] [(Fin 0, Fin 0, Fin 1)] (Fin 1) (Fin 0.3))
   \<le> length (add_unique_craters [(Fin 0, Fin 0, Fin 2)] [(Fin 0, Fin 0, Fin 1)] (Fin 1) (Fin 0.2))"
  using single_merge_threshold_monotone
    [of 1 1 "0.2" "0.3" "[(Fin 0, Fin 0, Fin 2)]" "[(Fin 0, Fin 0, Fin 1)]"]
  by simp

text \<open>
  C3, as stated, fails over a sequence of batches: with the larger radius threshold the
  second batch is discarded, and both candidates of the third batch, which only the
  discarded crater would have matched, are appended.
\<close>

theorem threshold_monotonicity_counterexample:
  "\<not> length (merge_batches
         [[(Fin 0, Fin 0, Fin 1)], [(Fin 0, Fin 0, Fin 2)],
          [(Fin 0, Fin 0, Fin 3), (Fin 0, Fin 0, Fin 3.1)]] [] (Fin 1) (Fin 0.3))
     \<le> length (merge_batches
         [[(Fin 0, Fin 0, Fin 1)], [(Fin 0, Fin 0, Fin 2)],
          [(Fin 0, Fin 0, Fin 3), (Fin 0, Fin 0, Fin 3.1)]] [] (Fin 1) (Fin 0.2))"
  by (simp add: update_catalog_def concatenate_def add_unique_craters_filter is_duplicate_def
      matches_def np_sub_def np_sq_Fin zero_over_scaled_radius underflow_def)

subsection \<open>Merging again what the catalog holds\<close>

lemma matches_self:
  assumes "1 / 10 ^ 160 \<le> \<bar>r\<bar>" and "0 < t1" and "0 < t2"
  shows "matches (Fin t1) (Fin t2) (Fin lo, Fin la, Fin r) (Fin lo, Fin la, Fin r)"
  using assms by (simp add: matches_finite underflow_zero)

lemma abs_underflow_le: "\<bar>underflow x\<bar> \<le> \<bar>x\<bar>"
  by (simp add: underflow_def)

lemma scaled_radius_underflows:
  assumes "\<bar>r\<bar> \<le> 1 / 10 ^ 200"
  shows "np_sq (np_mul (Fin r) km_to_deg) = Fin 0"
proof -
  let ?K = "180 / (pi * 1737.4)"
  let ?x = "underflow (r * ?K)"
  have "0 < ?K" using pi_gt_zero by simp
  moreover have "?K < 1 / 19" by (rule km_to_deg_upper)
  ultimately have K: "0 < ?K" "?K < 1 / 19" by blast+
  have "\<bar>r * ?K\<bar> = \<bar>r\<bar> * ?K"
    using K(1) by (simp add: abs_mult)
  also have "\<dots> \<le> 1 / 10 ^ 200 * (1 / 19)"
    using assms K by (intro mult_mono) simp_all
  finally have "\<bar>r * ?K\<bar> \<le> 1 / 10 ^ 200 * (1 / 19)" .
  with abs_underflow_le [of "r * ?K"] have x: "\<bar>?x\<bar> \<le> 1 / 10 ^ 200 * (1 / 19)"
    by (rule order_trans)
  have "\<bar>?x * ?x\<bar> = \<bar>?x\<bar> * \<bar>?x\<bar>"
    by (rule abs_mult)
  also have "\<dots> \<le> (1 / 10 ^ 200 * (1 / 19)) * (1 / 10 ^ 200 * (1 / 19))"
    using x by (intro mult_mono) simp_all
  also have "\<dots> \<le> 1 / 2 ^ 1075"
    by simp
  finally have "underflow (?x * ?x) = 0"
    by (simp only: underflow_def if_True)
  then show ?thesis
    unfolding km_to_deg_finite np_mul.simps np_sq_Fin by simp
qed

text \<open>
  C6, as amended. When every candidate of the batch is equal to some entry of the catalog
  and is finite with a radius of magnitude \<open>1e-160\<close> or more, and both thresholds are
  positive, the merge returns the catalog unchanged.
\<close>

theorem remerge_unchanged:
  assumes "\<forall>c \<in> set craters. c \<in> set catalog
             \<and> (\<exists>lo la r. c = (Fin lo, Fin la, Fin r) \<and> 1 / 10 ^ 160 \<le> \<bar>r\<bar>)"
    and "0 < t1" and "0 < t2"
  shows "add_unique_craters craters catalog (Fin t1) (Fin t2) = catalog
         \<and> length (add_unique_craters craters catalog (Fin t1) (Fin t2)) = length catalog"
proof -
  have "is_duplicate (Fin t1) (Fin t2) catalog c" if "c \<in> set craters" for c
  proof -
    from that assms(1) obtain lo la r
      where "c \<in> set catalog" and "c = (Fin lo, Fin la, Fin r)" and r: "1 / 10 ^ 160 \<le> \<bar>r\<bar>"
      by blast
    then show ?thesis
      using matches_self [OF r assms(2,3)]
      by (auto simp: is_duplicate_def list_ex_iff)
  qed
  then have "filter (\<lambda>c. \<not> is_duplicate (Fin t1) (Fin t2) catalog c) craters = []"
    by (simp add: filter_empty_conv)
  then show ?thesis
    by (simp add: add_unique_craters_filter)
qed

theorem remerge_unchanged_witness:
  "add_unique_craters [(Fin 1, Fin 2, Fin 3), (Fin 1, Fin 2, Fin 3)]
     [(Fin 4, Fin 5, Fin 6), (Fin 1, Fin 2, Fin 3)] (Fin 1) (Fin 1)
   = [(Fin 4, Fin 5, Fin 6), (Fin 1, Fin 2, Fin 3)]"
  using remerge_unchanged [of "[(Fin 1, Fin 2, Fin 3), (Fin 1, Fin 2, Fin 3)]"
      "[(Fin 4, Fin 5, Fin 6), (Fin 1, Fin 2, Fin 3)]" 1 1]
  by simp

text \<open>
  C6, as stated, fails for a candidate of radius \<open>1e-200\<close>: the square of the scaled radius
  underflows to zero, the position test divides zero by zero, the comparison with NaN is
  false, and the candidate is appended although the catalog holds the same row.
\<close>

theorem remerge_tiny_radius_counterexample:
  "set [(Fin 10, Fin 20, Fin (1 / 10 ^ 200))] \<subseteq> set [(Fin 10, Fin 20, Fin (1 / 10 ^ 200))]
   \<and> (0::real) < 1 / 10 ^ 200
   \<and> add_unique_craters [(Fin 10, Fin 20, Fin (1 / 10 ^ 200))]
         [(Fin 10, Fin 20, Fin (1 / 10 ^ 200))] (Fin 1) (Fin 1)
       = [(Fin 10, Fin 20, Fin (1 / 10 ^ 200)), (Fin 10, Fin 20, Fin (1 / 10 ^ 200))]"
proof -
  have "np_sq (np_mul (Fin (1 / 10 ^ 200)) km_to_deg) = Fin 0"
    by (rule scaled_radius_underflows) simp
  then have "\<not> matches (Fin 1) (Fin 1) (Fin 10, Fin 20, Fin (1 / 10 ^ 200))
               (Fin 10, Fin 20, Fin (1 / 10 ^ 200))"
    by (simp add: matches_def np_sub_def np_sq_Fin underflow_zero)
  then show ?thesis
    by (simp add: add_unique_craters_filter is_duplicate_def)
qed

section \<open>Properties of the conversion of one image\<close>

lemma py_int_clamped:
  "max (py_int ((3 / 1000) * real_of_int n - 3)) 3 = max 3 ((3 * n - 3000) div 1000)"
proof -
  have eq: "(3 / 1000) * real_of_int n - 3 = real_of_int (3 * n - 3000) / real_of_int 1000"
    by (simp add: field_simps)
  show ?thesis
  proof (cases "1000 \<le> n")
    case True
    then have "0 \<le> (3 / 1000) * real_of_int n - 3" by simp
    then have "py_int ((3 / 1000) * real_of_int n - 3) = (3 * n - 3000) div 1000"
      unfolding py_int_def eq by (simp only: if_True floor_divide_of_int_eq)
    then show ?thesis by simp
  next
    case False
    then have neg: "(3 / 1000) * real_of_int n - 3 < 0" by simp
    then have "py_int ((3 / 1000) * real_of_int n - 3) \<le> 0"
      by (simp add: py_int_def ceiling_le_iff)
    moreover from False have "(3 * n - 3000) div 1000 \<le> 0"
      by (simp add: div_int_pos_iff not_le) 
    ultimately show ?thesis by simp
  qed
qed

text \<open>
  The centre the conversion subtracts is the constant 128, half of 256, whatever \<open>dim\<close> is:
  a detection at pixel row 128 gets the central latitude, for every finite geometry.
\<close>

lemma row_128_central_latitude:
  assumes "d \<noteq> 0" and "dc \<noteq> 0"
  shows "map (\<lambda>c. fst (snd c))
           (convert_coords km2pix cosine (Fin d) (Fin l0, Fin l1, Fin l2, Fin l3) (Fin dc)
              [(Fin x, Fin 128, Fin r)])
         = [Fin (underflow (0.5 * (l2 + l3)))]"
  using assms by (simp add: convert_coords_def np_sub_def underflow_zero Let_def)

text \<open>
  C2. With \<open>dim = 512\<close> the image centre is the pixel (256, 256). For latitude bounds 0 and
  10 (midpoint 5) and distortion coefficient 1, the detection at the centre is given the
  latitude 2.5, not 5.
\<close>

theorem center_detection_dim_512:
  "map (\<lambda>c. fst (snd c))
     (convert_coords km2pix cosine (Fin 512) (Fin 0, Fin 10, Fin 0, Fin 10) (Fin 1)
        [(Fin (512 / 2), Fin (512 / 2), Fin 5)])
   = [Fin 2.5]
   \<and> np_mul (Fin 0.5) (np_add (Fin 0) (Fin 10)) = Fin 5"
  by (simp add: convert_coords_def np_sub_def underflow_def Let_def)

section \<open>Properties of add_unique_craters on the store\<close>

lemma loop_body_h_decision:
  "j < length (arrays h cr) \<Longrightarrow>
   loop_body_h view cr t1 t2 j (h, cu)
   = Inr (if is_duplicate t1 t2 (arrays h view) (arrays h cr ! j) then (h, cu)
          else vstack_h h cu (arrays h cr ! j))"
  by (simp only: loop_body_h_def prod.case if_True Let_def nested_if [unfolded Let_def])
    simp


lemma frame_refl: "frame h h"
  by (simp add: frame_def)

lemma frame_trans: "frame h1 h2 \<Longrightarrow> frame h2 h3 \<Longrightarrow> frame h1 h3"
  by (auto simp: frame_def)

lemma frame_vstack_h: "frame h (fst (vstack_h h a row))"
  by (simp add: frame_def vstack_h_def new_array_def)

lemma vstack_h_result:
  "vstack_h h a row = (h', r) \<Longrightarrow>
   r = next_addr h \<and> next_addr h' = Suc (next_addr h) \<and> arrays h' r = arrays h a @ [row]"
  by (auto simp: vstack_h_def new_array_def vstack_def)

lemma for_loop_h_inv:
  assumes "view < next_addr h0" and "cr < next_addr h0" and "frame h0 h"
    and "cu < next_addr h" and "\<forall>j \<in> set js. j < length (arrays h0 cr)"
  shows "\<exists>h' r. for_loop_h view cr t1 t2 js (h, cu) = Inr (h', r)
           \<and> frame h h' \<and> r < next_addr h'
           \<and> arrays h' r = arrays h cu
                 @ filter (\<lambda>c. \<not> is_duplicate t1 t2 (arrays h0 view) c) (map ((!) (arrays h0 cr)) js)
           \<and> (if filter (\<lambda>c. \<not> is_duplicate t1 t2 (arrays h0 view) c) (map ((!) (arrays h0 cr)) js) = []
               then r = cu \<and> h' = h else next_addr h \<le> r)"
  using assms(3-5)
proof (induction js arbitrary: h cu)
  case Nil
  then show ?case by (simp add: frame_refl)
next
  case (Cons j js)
  let ?new = "\<lambda>c. \<not> is_duplicate t1 t2 (arrays h0 view) c"
  from Cons.prems assms(1,2) have rd: "arrays h view = arrays h0 view" "arrays h cr = arrays h0 cr"
    by (auto simp: frame_def)
  from Cons.prems have j: "j < length (arrays h0 cr)" and js: "\<forall>j \<in> set js. j < length (arrays h0 cr)"
    by auto
  have body: "loop_body_h view cr t1 t2 j (h, cu)
      = Inr (if is_duplicate t1 t2 (arrays h0 view) (arrays h0 cr ! j) then (h, cu)
             else vstack_h h cu (arrays h0 cr ! j))"
    using loop_body_h_decision [of j h cr view t1 t2 cu] j by (simp add: rd)
  show ?case
  proof (cases "is_duplicate t1 t2 (arrays h0 view) (arrays h0 cr ! j)")
    case True
    from Cons.IH [OF Cons.prems(1) Cons.prems(2) js] True body show ?thesis
      by simp
  next
    case False
    obtain h1 r1 where v: "vstack_h h cu (arrays h0 cr ! j) = (h1, r1)"
      by (cases "vstack_h h cu (arrays h0 cr ! j)") auto
    from vstack_h_result [OF v] have r1: "r1 = next_addr h" "next_addr h1 = Suc (next_addr h)"
      "arrays h1 r1 = arrays h cu @ [arrays h0 cr ! j]" by auto
    from frame_vstack_h [of h cu "arrays h0 cr ! j"] v have f1: "frame h h1" by simp
    from Cons.prems(1) f1 have f01: "frame h0 h1" by (rule frame_trans)
    from r1 have lt: "r1 < next_addr h1" by simp
    from Cons.IH [OF f01 lt js] obtain h' r where
      run: "for_loop_h view cr t1 t2 js (h1, r1) = Inr (h', r)" and
      fr: "frame h1 h'" and rlt: "r < next_addr h'" and
      val: "arrays h' r = arrays h1 r1 @ filter ?new (map ((!) (arrays h0 cr)) js)" and
      fresh: "if filter ?new (map ((!) (arrays h0 cr)) js) = []
               then r = r1 \<and> h' = h1 else next_addr h1 \<le> r"
      by blast
    from fresh r1 have "next_addr h \<le> r" by (auto split: if_splits)
    moreover from f1 fr have "frame h h'" by (rule frame_trans)
    ultimately show ?thesis
      using False body v run rlt val r1 by simp
  qed
qed


text \<open>
  C10. A call leaves every array of the store as it was, the batch and the catalog passed
  in among them. The array returned holds the result of the merge; when it is larger than
  the catalog it is a new array, and otherwise it is the catalog object itself and the
  store is the same.
\<close>

theorem add_unique_craters_h_frame:
  assumes "craters < next_addr h" and "craters_unique < next_addr h"
  shows "\<exists>h' r. add_unique_craters_h h craters craters_unique t1 t2 = Inr (h', r)
           \<and> (\<forall>a < next_addr h. arrays h' a = arrays h a)
           \<and> arrays h' craters = arrays h craters
           \<and> arrays h' craters_unique = arrays h craters_unique
           \<and> arrays h' r = add_unique_craters (arrays h craters) (arrays h craters_unique) t1 t2
           \<and> (if length (arrays h' r) > length (arrays h craters_unique)
               then next_addr h \<le> r \<and> r < next_addr h'
               else r = craters_unique \<and> h' = h)"
proof -
  let ?new = "\<lambda>c. \<not> is_duplicate t1 t2 (arrays h craters_unique) c"
  have idx: "\<forall>j \<in> set [0..<length (arrays h craters)]. j < length (arrays h craters)"
    by simp
  have batch: "map ((!) (arrays h craters)) [0..<length (arrays h craters)] = arrays h craters"
    by (rule map_nth)
  from for_loop_h_inv [OF assms(2) assms(1) frame_refl assms(2) idx, of t1 t2]
  obtain h' r where
    run: "for_loop_h craters_unique craters t1 t2 [0..<length (arrays h craters)] (h, craters_unique)
          = Inr (h', r)" and
    fr: "frame h h'" and rlt: "r < next_addr h'" and
    val: "arrays h' r = arrays h craters_unique @ filter ?new (arrays h craters)" and
    fresh: "if filter ?new (arrays h craters) = [] then r = craters_unique \<and> h' = h
            else next_addr h \<le> r"
    unfolding batch by blast
  from fr have same: "\<forall>a < next_addr h. arrays h' a = arrays h a"
    by (simp add: frame_def)
  with assms have "arrays h' craters = arrays h craters"
    and "arrays h' craters_unique = arrays h craters_unique" by auto
  moreover have "arrays h' r = add_unique_craters (arrays h craters) (arrays h craters_unique) t1 t2"
    by (simp add: val add_unique_craters_filter)
  moreover have "if length (arrays h' r) > length (arrays h craters_unique)
               then next_addr h \<le> r \<and> r < next_addr h'
               else r = craters_unique \<and> h' = h"
    using fresh rlt by (auto simp: val split: if_splits)
  ultimately show ?thesis
    using run same unfolding add_unique_craters_h_def by blast
qed

theorem add_unique_craters_h_frame_witness:
  "\<exists>h' r. add_unique_craters_h
            \<lparr>arrays = (\<lambda>a. [])(0 := [(Fin 0, Fin 0, Fin 3)], 1 := [(Fin 0, Fin 0, Fin 1)]),
             next_addr = 2\<rparr> 0 1 (Fin 1) (Fin 0.3) = Inr (h', r)
     \<and> arrays h' 0 = [(Fin 0, Fin 0, Fin 3)]
     \<and> arrays h' 1 = [(Fin 0, Fin 0, Fin 1)]
     \<and> arrays h' r = [(Fin 0, Fin 0, Fin 1), (Fin 0, Fin 0, Fin 3)]
     \<and> 2 \<le> r"
  using add_unique_craters_h_frame
    [of 0 "\<lparr>arrays = (\<lambda>a. [])(0 := [(Fin 0, Fin 0, Fin 3)], 1 := [(Fin 0, Fin 0, Fin 1)]),
             next_addr = 2\<rparr>" 1 "Fin 1" "Fin 0.3"]
  by (auto simp: add_unique_craters_filter is_duplicate_def matches_def np_sub_def np_sq_Fin
      zero_over_scaled_radius underflow_def)

section \<open>Properties of extract_unique_craters\<close>

subsection \<open>One image\<close>

lemma minrad_arg_eq: "minrad_arg n = Some (minrad_of_span n)"
  by (cases "n < 4000") (simp_all add: minrad_arg_def minrad_of_span_def Let_def)

lemma minrad_of_span_whole:
  "minrad_of_span n = (if n < 4000 then max 3 ((3 * n - 3000) div 1000) else 9)"
  by (simp only: minrad_of_span_def py_int_clamped)

lemma sint_difference:
  fixes p0 p2 :: "32 word"
  assumes "- (2 ^ 31) \<le> sint p2 - sint p0" and "sint p2 - sint p0 < 2 ^ 31"
  shows "sint (p2 - p0) = sint p2 - sint p0"
  using assms by (simp add: sint_word_ariths signed_take_bit_int_eq_self)

lemma match_image_eq:
  "match_image w P preds i c0 =
     (case pix_bounds P i of
        Inl e \<Rightarrow> ([], Inl e)
      | Inr (p0, p1, p2, p3) \<Rightarrow>
          (case preds i of
             Inl e \<Rightarrow> ([], Inl e)
           | Inr pred \<Rightarrow>
               ([Call_template_match_t i (minrad_of_span (sint (p2 - p0)))],
                (case tmt_template_match_t w pred (minrad_of_span (sint (p2 - p0))) of
                   Inl e \<Rightarrow> Inl e
                 | Inr found \<Rightarrow> Inr (Some found)))))"
  by (simp add: match_image_def minrad_arg_eq Let_def split: sum.splits prod.splits)

lemma image_step_ok:
  assumes "image_ok w P preds i"
  shows "\<exists>out s'. image_step w CP P preds i s = (out, Inr s')"
proof -
  obtain cu n c0 where s: "s = (cu, n, c0)" by (cases s) auto
  from assms obtain p0 p1 p2 p3 pred coords where
    ok: "pix_bounds P i = Inr (p0, p1, p2, p3)" "preds i = Inr pred"
        "tmt_template_match_t w pred (minrad_of_span (sint (p2 - p0))) = Inr coords" and
    geo: "coords \<noteq> [] \<longrightarrow> (\<exists>llbd. longlat_bounds P i = Inr llbd)
                          \<and> (\<exists>dc. pix_distortion_coefficient P i = Inr dc)"
    unfolding image_ok_def by blast
  show ?thesis
  proof (cases "coords = []")
    case True
    with ok show ?thesis by (simp add: s image_step_def match_image_eq)
  next
    case False
    with geo obtain llbd dc where
      "longlat_bounds P i = Inr llbd" "pix_distortion_coefficient P i = Inr dc" by blast
    with False ok show ?thesis by (simp add: s image_step_def match_image_eq Let_def)
  qed
qed

lemma image_step_raises:
  assumes "image_raises w P preds i e"
  shows "\<exists>out. image_step w CP P preds i s = (out, Inl e)"
proof -
  obtain cu n c0 where s: "s = (cu, n, c0)" by (cases s) auto
  from assms show ?thesis
    unfolding image_raises_def
    by (elim disjE exE conjE) (simp_all add: s image_step_def match_image_eq)
qed

lemma image_step_events:
  assumes "ev \<in> set (fst (image_step w CP P preds i s))"
  shows "\<exists>p0 p1 p2 p3. pix_bounds P i = Inr (p0, p1, p2, p3)
           \<and> ev = Call_template_match_t i (minrad_of_span (sint (p2 - p0)))"
proof -
  obtain cu n c0 where s: "s = (cu, n, c0)" by (cases s) auto
  from assms show ?thesis
    by (auto simp: s image_step_def match_image_eq Let_def
        split: sum.splits prod.splits option.splits if_splits)
qed

lemma image_step_called:
  assumes "snd (image_step w CP P preds i s) = Inr s'"
  shows "\<exists>m. Call_template_match_t i m \<in> set (fst (image_step w CP P preds i s))"
proof -
  obtain cu n c0 where s: "s = (cu, n, c0)" by (cases s) auto
  from assms show ?thesis
    by (auto simp: s image_step_def match_image_eq Let_def
        split: sum.splits prod.splits option.splits if_splits)
qed

subsection \<open>The loop over the images\<close>

lemma images_loop_ok:
  "\<forall>i \<in> set js. image_ok w P preds i \<Longrightarrow> \<exists>out s'. images_loop w CP P preds js s = (out, Inr s')"
proof (induction js arbitrary: s)
  case Nil
  show ?case by (intro exI [of _ "[]"] exI [of _ s]) simp
next
  case (Cons i js)
  from Cons.prems have "image_ok w P preds i" by simp
  from image_step_ok [OF this] obtain out s1 where
    st: "image_step w CP P preds i s = (out, Inr s1)" by blast
  from Cons.prems have "\<forall>i \<in> set js. image_ok w P preds i" by simp
  from Cons.IH [OF this] obtain out' s' where "images_loop w CP P preds js s1 = (out', Inr s')"
    by blast
  with st have "images_loop w CP P preds (i # js) s = (out @ out', Inr s')" by simp
  then show ?case by blast
qed

lemma images_loop_raises:
  "\<forall>i \<in> set js. image_ok w P preds i \<Longrightarrow> image_raises w P preds k e
   \<Longrightarrow> \<exists>out. images_loop w CP P preds (js @ k # ks) s = (out, Inl e)"
proof (induction js arbitrary: s)
  case Nil
  from image_step_raises [OF Nil.prems(2)] obtain out where
    "image_step w CP P preds k s = (out, Inl e)" by blast
  then show ?case by simp
next
  case (Cons i js)
  from Cons.prems have "image_ok w P preds i" by simp
  from image_step_ok [OF this] obtain out s1 where
    st: "image_step w CP P preds i s = (out, Inr s1)" by blast
  from Cons.prems have "\<forall>i \<in> set js. image_ok w P preds i" by simp
  from Cons.IH [OF this Cons.prems(2)] obtain out' where
    "images_loop w CP P preds (js @ k # ks) s1 = (out', Inl e)" by blast
  with st show ?case by simp
qed

lemma images_loop_events:
  "ev \<in> set (fst (images_loop w CP P preds js s))
   \<Longrightarrow> \<exists>i p0 p1 p2 p3. i \<in> set js \<and> pix_bounds P i = Inr (p0, p1, p2, p3)
         \<and> ev = Call_template_match_t i (minrad_of_span (sint (p2 - p0)))"
proof (induction js arbitrary: s)
  case Nil
  then show ?case by simp
next
  case (Cons i js)
  obtain out res where st: "image_step w CP P preds i s = (out, res)"
    by (cases "image_step w CP P preds i s") auto
  show ?case
  proof (cases "ev \<in> set out")
    case True
    with st have "ev \<in> set (fst (image_step w CP P preds i s))" by simp
    from image_step_events [OF this] show ?thesis by auto
  next
    case False
    with Cons.prems st obtain s1 where "res = Inr s1"
      and "ev \<in> set (fst (images_loop w CP P preds js s1))"
      by (cases res) (auto split: prod.splits)
    from Cons.IH [OF this(2)] show ?thesis by auto
  qed
qed

lemma images_loop_called:
  "snd (images_loop w CP P preds js s) = Inr s'
   \<Longrightarrow> \<forall>i \<in> set js. \<exists>m. Call_template_match_t i m \<in> set (fst (images_loop w CP P preds js s))"
proof (induction js arbitrary: s)
  case Nil
  then show ?case by simp
next
  case (Cons i js)
  obtain out res where st: "image_step w CP P preds i s = (out, res)"
    by (cases "image_step w CP P preds i s") auto
  with Cons.prems obtain s1 where res: "res = Inr s1"
    by (cases res) auto
  obtain out' res' where lp: "images_loop w CP P preds js s1 = (out', res')"
    by (cases "images_loop w CP P preds js s1") auto
  with Cons.prems st res have res': "res' = Inr s'" by simp
  from st res have "snd (image_step w CP P preds i s) = Inr s1" by simp
  from image_step_called [OF this] st obtain m where m: "Call_template_match_t i m \<in> set out"
    by auto
  from lp res' have "snd (images_loop w CP P preds js s1) = Inr s'" by simp
  from Cons.IH [OF this] lp
  have "\<forall>j \<in> set js. \<exists>m. Call_template_match_t j m \<in> set out'" by simp
  with m st res lp show ?case by auto
qed

subsection \<open>The whole function\<close>

lemma load_or_generate_called:
  "Call_get_model_preds \<in> set (fst (load_or_generate w)) \<longleftrightarrow> (\<exists>e. h5_preds w = Inl e)"
  by (auto simp: load_or_generate_def split: sum.splits)

lemma load_or_generate_obtained:
  "obtained w preds \<longleftrightarrow> snd (load_or_generate w) = Inr preds"
  by (auto simp: obtained_def load_or_generate_def split: sum.splits)

text \<open>What the function returns, by the outcome of the loop.\<close>

lemma extract_run:
  assumes "load_or_generate w = (out, Inr preds)" and "h5_data w = Inr P"
    and "images_loop w CP P preds [0..<cp_n_imgs CP] (cu, 0, None) = (out', res)"
  shows "extract_unique_craters w CP cu =
           (case res of
              Inl e \<Rightarrow> (out @ out', Inl e)
            | Inr (result, N_matches_tot, coords) \<Rightarrow>
                (out @ out' @ [Call_np_save result],
                 (case np_save w result of Inl e \<Rightarrow> Inl e | Inr u \<Rightarrow> Inr result)))"
  using assms by (simp add: extract_unique_craters_def split: sum.splits prod.splits)

lemma extract_events:
  "\<exists>rest. fst (extract_unique_craters w CP cu) = fst (load_or_generate w) @ rest
     \<and> (\<forall>ev \<in> set rest.
           (\<exists>r. ev = Call_np_save r)
           \<or> (\<exists>P i p0 p1 p2 p3. h5_data w = Inr P \<and> i < cp_n_imgs CP
                  \<and> pix_bounds P i = Inr (p0, p1, p2, p3)
                  \<and> ev = Call_template_match_t i (minrad_of_span (sint (p2 - p0)))))"
proof -
  obtain out lg where lg: "load_or_generate w = (out, lg)"
    by (cases "load_or_generate w") auto
  show ?thesis
  proof (cases lg)
    case (Inl e)
    with lg have "fst (extract_unique_craters w CP cu) = fst (load_or_generate w) @ []"
      by (simp add: extract_unique_craters_def)
    then show ?thesis by (intro exI [of _ "[]"]) simp
  next
    case (Inr preds)
    show ?thesis
    proof (cases "h5_data w")
      case (Inl e)
      with lg Inr have "fst (extract_unique_craters w CP cu) = fst (load_or_generate w) @ []"
        by (simp add: extract_unique_craters_def)
      then show ?thesis by (intro exI [of _ "[]"]) simp
    next
      case P: (Inr P)
      obtain out' res where
        lp: "images_loop w CP P preds [0..<cp_n_imgs CP] (cu, 0, None) = (out', res)"
        by (cases "images_loop w CP P preds [0..<cp_n_imgs CP] (cu, 0, None)") auto
      have loop_ev: "\<exists>P i p0 p1 p2 p3. h5_data w = Inr P \<and> i < cp_n_imgs CP
                  \<and> pix_bounds P i = Inr (p0, p1, p2, p3)
                  \<and> ev = Call_template_match_t i (minrad_of_span (sint (p2 - p0)))"
        if "ev \<in> set out'" for ev
      proof -
        from that lp
        have "ev \<in> set (fst (images_loop w CP P preds [0..<cp_n_imgs CP] (cu, 0, None)))"
          by simp
        from images_loop_events [OF this] P show ?thesis by auto
      qed
      from extract_run [OF lg [unfolded Inr] P lp] lg
      obtain tail where
        run: "fst (extract_unique_craters w CP cu) = fst (load_or_generate w) @ out' @ tail"
        and tail: "\<forall>ev \<in> set tail. \<exists>r. ev = Call_np_save r"
        by (cases res) (auto split: prod.splits)
      show ?thesis
      proof (intro exI [of _ "out' @ tail"] conjI ballI)
        show "fst (extract_unique_craters w CP cu) = fst (load_or_generate w) @ out' @ tail"
          by (rule run)
      next
        fix ev assume "ev \<in> set (out' @ tail)"
        then consider "ev \<in> set out'" | "ev \<in> set tail" by auto
        then show "(\<exists>r. ev = Call_np_save r)
           \<or> (\<exists>P i p0 p1 p2 p3. h5_data w = Inr P \<and> i < cp_n_imgs CP
                  \<and> pix_bounds P i = Inr (p0, p1, p2, p3)
                  \<and> ev = Call_template_match_t i (minrad_of_span (sint (p2 - p0))))"
        proof cases
          case 1
          from loop_ev [OF this] show ?thesis by blast
        next
          case 2
          with tail show ?thesis by blast
        qed
      qed
    qed
  qed
qed

lemma regenerated_iff:
  "Call_get_model_preds \<in> set (fst (extract_unique_craters w CP cu))
   \<longleftrightarrow> (\<exists>e. h5_preds w = Inl e)"
proof -
  from extract_events [of w CP cu] obtain rest where
    run: "fst (extract_unique_craters w CP cu) = fst (load_or_generate w) @ rest" and
    rest: "\<forall>ev \<in> set rest.
           (\<exists>r. ev = Call_np_save r)
           \<or> (\<exists>P i p0 p1 p2 p3. h5_data w = Inr P \<and> i < cp_n_imgs CP
                  \<and> pix_bounds P i = Inr (p0, p1, p2, p3)
                  \<and> ev = Call_template_match_t i (minrad_of_span (sint (p2 - p0))))"
    by blast
  from rest have "Call_get_model_preds \<notin> set rest" by fastforce
  with run load_or_generate_called [of w] show ?thesis by simp
qed

lemma generation_failure_propagates:
  "h5_preds w = Inl e \<Longrightarrow> model_preds w = Inl e'
   \<Longrightarrow> snd (extract_unique_craters w CP cu) = Inl e'"
  by (simp add: extract_unique_craters_def load_or_generate_def)

lemma data_failure_propagates:
  "obtained w preds \<Longrightarrow> h5_data w = Inl e
   \<Longrightarrow> snd (extract_unique_craters w CP cu) = Inl e"
  by (cases "load_or_generate w")
    (simp add: load_or_generate_obtained extract_unique_craters_def)

lemma image_failure_propagates:
  assumes "obtained w preds" and "h5_data w = Inr P" and "k < cp_n_imgs CP"
    and "\<forall>i < k. image_ok w P preds i" and "image_raises w P preds k e"
  shows "snd (extract_unique_craters w CP cu) = Inl e"
proof -
  from assms(1) obtain out where lg: "load_or_generate w = (out, Inr preds)"
    by (cases "load_or_generate w") (simp add: load_or_generate_obtained)
  from assms(3) have "[0..<cp_n_imgs CP] = [0..<k] @ k # [Suc k..<cp_n_imgs CP]"
    using upt_add_eq_append [of 0 k "cp_n_imgs CP - k"] upt_conv_Cons [of k "cp_n_imgs CP"]
    by simp
  moreover from assms(4) have "\<forall>i \<in> set [0..<k]. image_ok w P preds i" by simp
  from images_loop_raises [OF this assms(5)] obtain out' where
    "images_loop w CP P preds ([0..<k] @ k # [Suc k..<cp_n_imgs CP]) (cu, 0, None) = (out', Inl e)"
    by blast
  ultimately have "images_loop w CP P preds [0..<cp_n_imgs CP] (cu, 0, None) = (out', Inl e)"
    by simp
  from extract_run [OF lg assms(2) this] show ?thesis by simp
qed

lemma no_failure_returns:
  assumes "obtained w preds" and "h5_data w = Inr P"
    and "\<forall>i < cp_n_imgs CP. image_ok w P preds i"
  shows "\<exists>r. last (fst (extract_unique_craters w CP cu)) = Call_np_save r
           \<and> snd (extract_unique_craters w CP cu)
               = (case np_save w r of Inl e \<Rightarrow> Inl e | Inr u \<Rightarrow> Inr r)"
proof -
  from assms(1) obtain out where lg: "load_or_generate w = (out, Inr preds)"
    by (cases "load_or_generate w") (simp add: load_or_generate_obtained)
  from assms(3) have "\<forall>i \<in> set [0..<cp_n_imgs CP]. image_ok w P preds i" by simp
  from images_loop_ok [OF this] obtain out' s' where
    lp: "images_loop w CP P preds [0..<cp_n_imgs CP] (cu, 0, None) = (out', Inr s')"
    by blast
  obtain r n c where s': "s' = (r, n, c)" by (cases s') auto
  from extract_run [OF lg assms(2) lp [unfolded s']]
  have "last (fst (extract_unique_craters w CP cu)) = Call_np_save r"
    and "snd (extract_unique_craters w CP cu)
               = (case np_save w r of Inl e \<Rightarrow> Inl e | Inr u \<Rightarrow> Inr r)"
    by simp_all
  then show ?thesis by blast
qed

text \<open>
  C5, as amended. The predictions are generated if and only if loading them raised an
  exception, whichever it is, and that exception never reaches the caller. Every other
  failure does, as the exception of the first call that fails: the generation, the opening
  of the data file, and for each image in turn the pixel bounds, the prediction, the
  provider and the geometry of an image with detections. When no call fails the function
  saves the catalog and returns it, or raises what saving raised.
\<close>

theorem extract_failure_semantics:
  "(Call_get_model_preds \<in> set (fst (extract_unique_craters w CP cu))
      \<longleftrightarrow> (\<exists>e. h5_preds w = Inl e))
   \<and> (\<forall>e e'. h5_preds w = Inl e \<and> model_preds w = Inl e'
         \<longrightarrow> snd (extract_unique_craters w CP cu) = Inl e')
   \<and> (\<forall>preds. obtained w preds \<longrightarrow>
         (\<forall>e. h5_data w = Inl e \<longrightarrow> snd (extract_unique_craters w CP cu) = Inl e)
         \<and> (\<forall>P. h5_data w = Inr P \<longrightarrow>
               (\<forall>k e. k < cp_n_imgs CP \<and> (\<forall>i < k. image_ok w P preds i)
                      \<and> image_raises w P preds k e
                  \<longrightarrow> snd (extract_unique_craters w CP cu) = Inl e)
               \<and> ((\<forall>i < cp_n_imgs CP. image_ok w P preds i) \<longrightarrow>
                    (\<exists>r. last (fst (extract_unique_craters w CP cu)) = Call_np_save r
                       \<and> snd (extract_unique_craters w CP cu)
                           = (case np_save w r of Inl e \<Rightarrow> Inl e | Inr u \<Rightarrow> Inr r)))))"
  using regenerated_iff [of w CP cu] generation_failure_propagates [of w _ _ CP cu]
    data_failure_propagates [of w _ _ CP cu] image_failure_propagates [of w _ _ _ CP _ cu]
    no_failure_returns [of w _ _ CP cu]
  by blast

lemma extract_world1:
  "extract_unique_craters world1 config1 []
   = ([Print ''Couldnt load model predictions, generating'', Call_get_model_preds,
       Call_template_match_t 0 9, Call_np_save [(Fin 5, Fin 0, Fin (5 / 2))]],
      Inr [(Fin 5, Fin 0, Fin (5 / 2))])"
  by (simp add: extract_unique_craters_def load_or_generate_def world1_def data1_def config1_def
      image_step_def match_image_def minrad_arg_def convert_coords_def update_catalog_def
      concatenate_def np_sub_def underflow_def Let_def)

theorem extract_failure_semantics_witness:
  "Call_get_model_preds \<in> set (fst (extract_unique_craters world1 config1 []))
   \<and> (\<exists>r. last (fst (extract_unique_craters world1 config1 [])) = Call_np_save r
          \<and> snd (extract_unique_craters world1 config1 []) = Inr r)
   \<and> snd (extract_unique_craters world_no_bounds config1 []) = Inl KeyError"
proof -
  let ?preds = "\<lambda>i::nat. if i < 1 then Inr () else (Inl IndexError :: py_error + unit)"
  let ?D = "data1\<lparr>longlat_bounds := (\<lambda>i. Inl KeyError)\<rparr>"
  have load: "h5_preds world1 = Inl FileNotFoundError"
    by (simp add: world1_def)
  have o1: "obtained world1 ?preds"
    by (simp add: obtained_def world1_def)
  have d1: "h5_data world1 = Inr data1"
    by (simp add: world1_def)
  have ok1: "\<forall>i < cp_n_imgs config1. image_ok world1 data1 ?preds i"
    by (simp add: image_ok_def world1_def data1_def config1_def)
  have save1: "np_save world1 r = Inr ()" for r
    by (simp add: world1_def)
  have o2: "obtained world_no_bounds ?preds"
    by (simp add: obtained_def world_no_bounds_def world1_def)
  have d2: "h5_data world_no_bounds = Inr ?D"
    by (simp add: world_no_bounds_def)
  have k: "0 < cp_n_imgs config1" "\<forall>i < (0::nat). image_ok world_no_bounds ?D ?preds i"
    by (simp_all add: config1_def)
  have raises: "image_raises world_no_bounds ?D ?preds 0 KeyError"
    by (simp add: image_raises_def world_no_bounds_def world1_def data1_def)
  note T1 = extract_failure_semantics [of world1 config1 "[]"]
  note T2 = extract_failure_semantics [of world_no_bounds config1 "[]"]
  from T1 load have "Call_get_model_preds \<in> set (fst (extract_unique_craters world1 config1 []))"
    by blast
  moreover from T1 o1 d1 ok1
  have "\<exists>r. last (fst (extract_unique_craters world1 config1 [])) = Call_np_save r
          \<and> snd (extract_unique_craters world1 config1 [])
              = (case np_save world1 r of Inl e \<Rightarrow> Inl e | Inr u \<Rightarrow> Inr r)"
    by blast
  then have "\<exists>r. last (fst (extract_unique_craters world1 config1 [])) = Call_np_save r
          \<and> snd (extract_unique_craters world1 config1 []) = Inr r"
    by (simp add: save1)
  moreover from T2 o2 d2 k raises
  have "snd (extract_unique_craters world_no_bounds config1 []) = Inl KeyError"
    by blast
  ultimately show ?thesis by blast
qed

text \<open>
  C5, as stated, fails when the predictions file is there and the read raises another
  exception, here a KeyError for the data set: the exception is caught and does not reach
  the caller, and \<open>get_model_preds\<close> is called; what the caller gets is the OSError that
  the call raises.
\<close>

theorem regenerates_on_key_error:
  "h5_preds world_key_error = Inl KeyError \<and> KeyError \<noteq> FileNotFoundError
   \<and> extract_unique_craters world_key_error config1 []
       = ([Print ''Couldnt load model predictions, generating'', Call_get_model_preds],
          Inl OSError)"
  by (simp add: world_key_error_def extract_unique_craters_def load_or_generate_def)

text \<open>
  C9, as amended. Every call of the provider that the function makes is for an image \<open>i\<close>
  of the run, with \<open>minrad\<close> a function of \<open>rawlen\<close>, the int32 difference of the pixel bounds 2
  and 0 of that image: below 4000 it is \<open>int((3/1000) * rawlen - 3)\<close>, and 3 where that is
  smaller; from 4000 on it is 9. When the function returns a catalog, the provider was
  called for every image. \<open>rawlen\<close> is the difference of the two bounds whenever that
  difference is an int32.
\<close>

theorem minrad_passed_to_provider:
  "(\<forall>i m. Call_template_match_t i m \<in> set (fst (extract_unique_craters w CP cu)) \<longrightarrow>
      (\<exists>P p0 p1 p2 p3. h5_data w = Inr P \<and> i < cp_n_imgs CP
         \<and> pix_bounds P i = Inr (p0, p1, p2, p3)
         \<and> m = (if sint (p2 - p0) < 4000
                  then max (py_int ((3 / 1000) * real_of_int (sint (p2 - p0)) - 3)) 3
                  else 9)))
   \<and> (\<forall>r. snd (extract_unique_craters w CP cu) = Inr r \<longrightarrow>
         (\<forall>i < cp_n_imgs CP.
            \<exists>m. Call_template_match_t i m \<in> set (fst (extract_unique_craters w CP cu))))
   \<and> (\<forall>p0 p2 :: 32 word.
         - (2 ^ 31) \<le> sint p2 - sint p0 \<and> sint p2 - sint p0 < 2 ^ 31
         \<longrightarrow> sint (p2 - p0) = sint p2 - sint p0)"
proof (intro conjI allI impI)
  fix i m
  assume call: "Call_template_match_t i m \<in> set (fst (extract_unique_craters w CP cu))"
  from extract_events [of w CP cu] obtain rest where
    run: "fst (extract_unique_craters w CP cu) = fst (load_or_generate w) @ rest" and
    rest: "\<forall>ev \<in> set rest.
           (\<exists>r. ev = Call_np_save r)
           \<or> (\<exists>P i p0 p1 p2 p3. h5_data w = Inr P \<and> i < cp_n_imgs CP
                  \<and> pix_bounds P i = Inr (p0, p1, p2, p3)
                  \<and> ev = Call_template_match_t i (minrad_of_span (sint (p2 - p0))))"
    by blast
  have "Call_template_match_t i m \<notin> set (fst (load_or_generate w))"
    by (auto simp: load_or_generate_def split: sum.splits)
  with call run have "Call_template_match_t i m \<in> set rest" by simp
  with rest show "\<exists>P p0 p1 p2 p3. h5_data w = Inr P \<and> i < cp_n_imgs CP
         \<and> pix_bounds P i = Inr (p0, p1, p2, p3)
         \<and> m = (if sint (p2 - p0) < 4000
                  then max (py_int ((3 / 1000) * real_of_int (sint (p2 - p0)) - 3)) 3
                  else 9)"
    unfolding minrad_of_span_def by fastforce
next
  fix r i
  assume ret: "snd (extract_unique_craters w CP cu) = Inr r" and i: "i < cp_n_imgs CP"
  obtain out lg where lg: "load_or_generate w = (out, lg)"
    by (cases "load_or_generate w") auto
  with ret obtain preds where preds: "lg = Inr preds"
    by (cases lg) (auto simp: extract_unique_craters_def)
  from ret lg preds obtain P where P: "h5_data w = Inr P"
    by (cases "h5_data w") (auto simp: extract_unique_craters_def)
  obtain out' res where
    lp: "images_loop w CP P preds [0..<cp_n_imgs CP] (cu, 0, None) = (out', res)"
    by (cases "images_loop w CP P preds [0..<cp_n_imgs CP] (cu, 0, None)") auto
  note run = extract_run [OF lg [unfolded preds] P lp]
  from ret run obtain s' where s': "res = Inr s'"
    by (cases res) auto
  with lp have "snd (images_loop w CP P preds [0..<cp_n_imgs CP] (cu, 0, None)) = Inr s'"
    by simp
  from images_loop_called [OF this] lp
  have "\<forall>j \<in> set [0..<cp_n_imgs CP]. \<exists>m. Call_template_match_t j m \<in> set out'"
    by simp
  moreover from i have "i \<in> set [0..<cp_n_imgs CP]" by simp
  ultimately obtain m where "Call_template_match_t i m \<in> set out'"
    by blast
  with run s' show "\<exists>m. Call_template_match_t i m \<in> set (fst (extract_unique_craters w CP cu))"
    by (auto split: prod.splits)
next
  fix p0 p2 :: "32 word"
  assume "- (2 ^ 31) \<le> sint p2 - sint p0 \<and> sint p2 - sint p0 < 2 ^ 31"
  then show "sint (p2 - p0) = sint p2 - sint p0"
    by (simp add: sint_difference)
qed

theorem minrad_passed_to_provider_witness:
  "\<exists>m. Call_template_match_t 0 m \<in> set (fst (extract_unique_craters world1 config1 []))
        \<and> m = 9"
proof -
  note T = minrad_passed_to_provider [of world1 config1 "[]"]
  have "snd (extract_unique_craters world1 config1 []) = Inr [(Fin 5, Fin 0, Fin (5 / 2))]"
    by (simp add: extract_world1)
  moreover have "0 < cp_n_imgs config1" by (simp add: config1_def)
  ultimately obtain m where
    m: "Call_template_match_t 0 m \<in> set (fst (extract_unique_craters world1 config1 []))"
    using T by blast
  with T obtain P p0 p1 p2 p3 where "h5_data world1 = Inr P"
    and "pix_bounds P 0 = Inr (p0, p1, p2, p3)"
    and "m = (if sint (p2 - p0) < 4000
                  then max (py_int ((3 / 1000) * real_of_int (sint (p2 - p0)) - 3)) 3
                  else 9)"
    by blast
  then have "m = 9"
    by (auto simp: world1_def data1_def)
  with m show ?thesis by blast
qed

text \<open>
  C9, as stated, fails when the difference of the pixel bounds is not an int32: for the
  bounds -1 and 2147483647 the span is 2147483648, \<open>rawlen\<close> wraps around to -2147483648
  and the provider is called with \<open>minrad = 3\<close>, not 9.
\<close>

theorem minrad_wraps_counterexample:
  "(\<exists>P. h5_data world_wide = Inr P \<and> pix_bounds P 0 = Inr (- 1, 0, 2147483647, 0))
   \<and> (4000::int) \<le> 2147483647 - (- 1)
   \<and> fst (extract_unique_craters world_wide config1 [])
       = [Print ''Couldnt load model predictions, generating'', Call_get_model_preds,
          Call_template_match_t 0 3, Call_np_save [(Fin 5, Fin 0, Fin (5 / 2))]]"
  by (simp add: extract_unique_craters_def load_or_generate_def world_wide_def world1_def
      data1_def config1_def image_step_def match_image_def minrad_arg_def py_int_def
      convert_coords_def update_catalog_def concatenate_def np_sub_def underflow_def Let_def)

end
